theory Spec2Isabelle
  imports Complex_Main
begin

section \<open>Data model of the quiz application\<close>

text \<open>
  A question is one object of the questions document (\<^verbatim>\<open>questions.json\<close>): the keys
  \<^verbatim>\<open>id\<close>, \<^verbatim>\<open>category\<close>, \<^verbatim>\<open>question\<close>, \<^verbatim>\<open>choices\<close> and \<^verbatim>\<open>answer\<close> of the dict.
  Python's unbounded integers are \<open>int\<close>.
\<close>

record question =
  q_id :: int
  q_category :: string
  q_question :: string
  q_choices :: "string list"
  q_answer :: string

text \<open>
  An entry of \<^verbatim>\<open>st.session_state["answers"]\<close> is the tuple
  \<^verbatim>\<open>(q["id"], choice, correct)\<close>.
\<close>

type_synonym submission = "int \<times> string \<times> bool"

text \<open>
  \<^verbatim>\<open>st.session_state\<close> is a dict that starts empty; the program uses six keys of it.
  A key that is absent is \<open>None\<close>, so that \<^verbatim>\<open>"quiz_running" not in st.session_state\<close>
  and \<^verbatim>\<open>st.session_state.get(k, default)\<close> can be written as the source has them.
\<close>

record session_state =
  quiz_running :: "bool option"
  last_pool :: "int list option"
  current_q_index :: "int option"
  score :: "int option"
  answers :: "submission list option"
  start_time :: "string option"

definition empty_session :: session_state where
  "empty_session =
     \<lparr>quiz_running = None, last_pool = None, current_q_index = None,
      score = None, answers = None, start_time = None\<rparr>"

text \<open>\<^verbatim>\<open>st.session_state.get(key, default)\<close> for the three keys read with a default.\<close>

definition get_index :: "session_state \<Rightarrow> int" where
  "get_index s = (case current_q_index s of None \<Rightarrow> 0 | Some i \<Rightarrow> i)"

definition get_score :: "session_state \<Rightarrow> int" where
  "get_score s = (case score s of None \<Rightarrow> 0 | Some v \<Rightarrow> v)"

definition get_answers :: "session_state \<Rightarrow> submission list" where
  "get_answers s = (case answers s of None \<Rightarrow> [] | Some xs \<Rightarrow> xs)"

text \<open>The dict written to the results document by \<^verbatim>\<open>take_quiz\<close> (lines 188 to 196).\<close>

record result_record =
  r_timestamp :: string
  r_score :: int
  r_total :: int
  r_pct :: rat
  r_grade :: string
  r_category :: string
  r_answers :: "submission list"

datatype py_error = IndexError | KeyError | StopIteration

text \<open>
  What the program reports to the user: one constructor for each \<^verbatim>\<open>st.warning\<close>,
  \<^verbatim>\<open>st.success\<close>, \<^verbatim>\<open>st.error\<close> and \<^verbatim>\<open>st.info\<close> call of the modelled functions, with
  the values its text is formatted from.
\<close>

datatype message =
    NoQuestionsAvailable
  | NoQuestionsInCategory
  | Correct
  | Incorrect string
  | AlreadyAnswered
  | YouScored int int rat string
  | ResultSaved
  | NoQuestionsToEdit
  | AnswerMustMatch
  | QuestionBankSaved
  | QuestionUpdated

section \<open>Helper functions of the source\<close>

text \<open>The default question bank written by \<^verbatim>\<open>ensure_files_exist\<close> (lines 22 to 44).\<close>

definition default_questions :: "question list" where
  "default_questions =
     [\<lparr>q_id = 1, q_category = ''General Knowledge'',
       q_question = ''What is the capital of France?'',
       q_choices = [''Paris'', ''London'', ''Berlin'', ''Madrid''], q_answer = ''Paris''\<rparr>,
      \<lparr>q_id = 2, q_category = ''Math'',
       q_question = ''What is 7 * 8?'',
       q_choices = [''54'', ''56'', ''58'', ''49''], q_answer = ''56''\<rparr>,
      \<lparr>q_id = 3, q_category = ''Science'',
       q_question = ''Water's chemical formula is?'',
       q_choices = [''H2O'', ''CO2'', ''O2'', ''NaCl''], q_answer = ''H2O''\<rparr>]"

text \<open>
  Python's \<^verbatim>\<open>max\<close> over a non-empty sequence, as the left-to-right scan it is. The
  source calls it only behind the guard \<^verbatim>\<open>if not qs\<close>, so the empty case (a
  \<^verbatim>\<open>ValueError\<close> in Python) is \<open>None\<close> here and never reached by \<open>generate_id\<close>.
\<close>

fun py_max :: "int list \<Rightarrow> int option" where
  "py_max [] = None"
| "py_max (x # xs) = Some (fold max xs x)"

definition generate_id :: "question list \<Rightarrow> int" where
  "generate_id qs =
     (if qs = [] then 1
      else (case py_max (map q_id qs) of Some m \<Rightarrow> m + 1 | None \<Rightarrow> 1))"

definition quiz_session_reset :: "session_state \<Rightarrow> session_state" where
  "quiz_session_reset s = s\<lparr>current_q_index := Some 0, score := Some 0, answers := Some []\<rparr>"

text \<open>
  \<^verbatim>\<open>calculate_grade\<close>. Python's true division of two integers gives a float; the model
  computes with exact rationals, so the rounding of the floating-point quotient and
  product is not represented.
\<close>

definition calculate_grade :: "int \<Rightarrow> int \<Rightarrow> rat \<times> string" where
  "calculate_grade sc tot =
     (let pct = (if tot > 0 then (of_int sc / of_int tot) * 100 else 0);
          grade = (if pct \<ge> 85 then ''A''
                   else if pct \<ge> 70 then ''B''
                   else if pct \<ge> 50 then ''C''
                   else ''D'')
      in (pct, grade))"

section \<open>Python list operations\<close>

text \<open>
  The slice \<^verbatim>\<open>xs[:n]\<close>: the first \<open>n\<close> elements, all of \<open>xs\<close> when \<open>n\<close> exceeds its
  length; a negative \<open>n\<close> counts from the end.
\<close>

definition py_prefix :: "'a list \<Rightarrow> int \<Rightarrow> 'a list" where
  "py_prefix xs n =
     (if 0 \<le> n then take (nat n) xs else take (nat (int (length xs) + n)) xs)"

text \<open>
  The subscript \<^verbatim>\<open>xs[i]\<close>: a negative index counts from the end, and an index outside
  the list raises \<^verbatim>\<open>IndexError\<close>, which is \<open>None\<close> here.
\<close>

definition py_index :: "'a list \<Rightarrow> int \<Rightarrow> 'a option" where
  "py_index xs i =
     (if 0 \<le> i \<and> i < int (length xs) then Some (xs ! nat i)
      else if i < 0 \<and> - int (length xs) \<le> i then Some (xs ! nat (int (length xs) + i))
      else None)"

section \<open>The quiz page\<close>

text \<open>
  Everything \<^verbatim>\<open>take_quiz\<close> obtains from outside during one run of the script: the values
  of the widgets (select box, slider, check box, radio and the four buttons), the outcome
  of \<^verbatim>\<open>random.shuffle\<close> as a function of the pool, and the two readings of the clock.
\<close>

record quiz_inputs =
  in_category :: string
  in_num_questions :: int
  in_shuffle :: bool
  in_rnd :: "question list \<Rightarrow> question list"
  in_choice :: string
  in_previous :: bool
  in_submit :: bool
  in_next :: bool
  in_finish :: bool
  in_now_start :: string
  in_now_result :: string

text \<open>Lines 125 to 129: the questions of the chosen category.\<close>

definition pool :: "question list \<Rightarrow> string \<Rightarrow> question list" where
  "pool qs cat = (if cat = ''All'' then qs else filter (\<lambda>q. q_category q = cat) qs)"

text \<open>Lines 135 to 138: shuffle if asked to, then keep the first \<^verbatim>\<open>num_questions\<close>.\<close>

definition selected_questions :: "question list \<Rightarrow> quiz_inputs \<Rightarrow> question list" where
  "selected_questions qs inp =
     py_prefix
       (if in_shuffle inp then in_rnd inp (pool qs (in_category inp))
        else pool qs (in_category inp))
       (in_num_questions inp)"

text \<open>
  Lines 141 to 145: a new session starts when the key \<^verbatim>\<open>quiz_running\<close> is absent or the
  ids of the selected questions differ from \<^verbatim>\<open>last_pool\<close>.
\<close>

definition init_session :: "int list \<Rightarrow> string \<Rightarrow> session_state \<Rightarrow> session_state" where
  "init_session ids now s =
     (if quiz_running s = None \<or> last_pool s \<noteq> Some ids
      then (quiz_session_reset (s\<lparr>quiz_running := Some True, last_pool := Some ids\<rparr>))
             \<lparr>start_time := Some now\<rparr>
      else s)"

text \<open>
  Lines 157 and 158, once the Previous button is known to be pressed. The subscript
  \<^verbatim>\<open>st.session_state["current_q_index"]\<close> raises \<^verbatim>\<open>KeyError\<close> when the key is absent.
\<close>

definition previous_click :: "int \<Rightarrow> session_state \<Rightarrow> py_error + session_state" where
  "previous_click q_index s =
     (if q_index > 0
      then (case current_q_index s of
              None \<Rightarrow> Inl KeyError
            | Some i \<Rightarrow> Inr (s\<lparr>current_q_index := Some (i - 1)\<rparr>))
      else Inr s)"

text \<open>Lines 176 and 177, once the Next button is known to be pressed.\<close>

definition next_click :: "int \<Rightarrow> nat \<Rightarrow> session_state \<Rightarrow> py_error + session_state" where
  "next_click q_index n s =
     (if q_index < int n - 1
      then (case current_q_index s of
              None \<Rightarrow> Inl KeyError
            | Some i \<Rightarrow> Inr (s\<lparr>current_q_index := Some (i + 1)\<rparr>))
      else Inr s)"

text \<open>
  Lines 161 to 174, the body of the Submit Answer button: the session state it leaves and
  the message it shows.
\<close>

definition submit_answer :: "question \<Rightarrow> string \<Rightarrow> session_state \<Rightarrow> session_state \<times> message" where
  "submit_answer q ch s =
     (let s1 = s\<lparr>answers := Some (get_answers s)\<rparr>;
          correct = (ch = q_answer q);
          already = find (\<lambda>a. fst a = q_id q) (get_answers s1)
      in case already of
           None \<Rightarrow>
             (let s2 = s1\<lparr>answers := Some (get_answers s1 @ [(q_id q, ch, correct)])\<rparr>
              in if correct then (s2\<lparr>score := Some (get_score s2 + 1)\<rparr>, Correct)
                 else (s2, Incorrect (q_answer q)))
         | Some a \<Rightarrow> (s1, AlreadyAnswered))"

text \<open>
  Lines 183 to 198, the body of the Finish Quiz button: the state, the two messages
  (the score line and the one of \<^verbatim>\<open>save_result\<close>) and the record appended to the results
  document.
\<close>

definition finish_quiz ::
  "question list \<Rightarrow> string \<Rightarrow> string \<Rightarrow> session_state
     \<Rightarrow> session_state \<times> message list \<times> result_record" where
  "finish_quiz selected cat now s =
     (let tot = int (length selected);
          sc = get_score s;
          (pct, grade) = calculate_grade sc tot;
          result = \<lparr>r_timestamp = now, r_score = sc, r_total = tot, r_pct = pct,
                    r_grade = grade, r_category = cat, r_answers = get_answers s\<rparr>
      in (s\<lparr>quiz_running := Some False\<rparr>, [YouScored sc tot pct grade, ResultSaved], result))"

record quiz_out =
  out_state :: session_state
  out_messages :: "message list"
  out_saved :: "result_record option"

text \<open>
  One run of \<^verbatim>\<open>take_quiz\<close> on the loaded question bank \<open>qs\<close>. The result is \<open>Inr\<close> with
  the session state, the messages and the result record saved (if any) when the function
  returns, and \<open>Inl\<close> with the exception and the session state at that moment when it
  raises (the session state outlives the run). Rendering (headers, the question text, the
  chart) is left out.
\<close>

definition take_quiz ::
  "question list \<Rightarrow> quiz_inputs \<Rightarrow> session_state \<Rightarrow> (py_error \<times> session_state) + quiz_out" where
  "take_quiz qs inp s =
     (if qs = [] then
        Inr \<lparr>out_state = s, out_messages = [NoQuestionsAvailable], out_saved = None\<rparr>
      else if pool qs (in_category inp) = [] then
        Inr \<lparr>out_state = s, out_messages = [NoQuestionsInCategory], out_saved = None\<rparr>
      else
        (let selected = selected_questions qs inp;
             s0 = init_session (map q_id selected) (in_now_start inp) s;
             q_index = get_index s0
         in case py_index selected q_index of
              None \<Rightarrow> Inl (IndexError, s0)
            | Some q \<Rightarrow>
               (case (if in_previous inp then previous_click q_index s0 else Inr s0) of
                  Inl e \<Rightarrow> Inl (e, s0)
                | Inr s1 \<Rightarrow>
                   (let (s2, m2) =
                          (if in_submit inp
                           then (let (t, m) = submit_answer q (in_choice inp) s1 in (t, [m]))
                           else (s1, []))
                    in case (if in_next inp then next_click q_index (length selected) s2
                             else Inr s2) of
                         Inl e \<Rightarrow> Inl (e, s2)
                       | Inr s3 \<Rightarrow>
                          (if q_index = int (length selected) - 1 \<and> in_finish inp then
                             (let (s4, m4, r) =
                                    finish_quiz selected (in_category inp) (in_now_result inp) s3
                              in Inr \<lparr>out_state = s4, out_messages = m2 @ m4,
                                      out_saved = Some r\<rparr>)
                           else
                             Inr \<lparr>out_state = s3, out_messages = m2, out_saved = None\<rparr>)))))"

text \<open>The session state a run of \<^verbatim>\<open>take_quiz\<close> leaves behind, raised or returned.\<close>

definition state_after :: "(py_error \<times> session_state) + quiz_out \<Rightarrow> session_state" where
  "state_after r = (case r of Inl (e, s) \<Rightarrow> s | Inr out \<Rightarrow> out_state out)"

section \<open>The main script\<close>

datatype page = FlashScreen | TakeQuiz | ViewResults | EditQuestions | DisplayQuestions | About

text \<open>
  One run of \<^verbatim>\<open>main\<close>, as far as the session state goes: the sidebar button
  Reset Quiz Session (lines 354 to 356), then the selected page; of the pages only
  \<^verbatim>\<open>take_quiz\<close> reads or writes the session state.
\<close>

record event =
  ev_reset :: bool
  ev_page :: page
  ev_questions :: "question list"
  ev_inputs :: quiz_inputs

definition main_session :: "event \<Rightarrow> session_state \<Rightarrow> session_state" where
  "main_session ev s =
     (let s1 = (if ev_reset ev then quiz_session_reset s else s)
      in if ev_page ev = TakeQuiz
         then state_after (take_quiz (ev_questions ev) (ev_inputs ev) s1)
         else s1)"

text \<open>A browser session: the runs of the script one after the other.\<close>

fun run :: "session_state \<Rightarrow> event list \<Rightarrow> session_state" where
  "run s [] = s"
| "run s (ev # evs) = run (main_session ev s) evs"

section \<open>Editing a question\<close>

text \<open>
  \<^verbatim>\<open>str.splitlines\<close> and \<^verbatim>\<open>str.strip\<close> for text whose code points are below 256 (a
  \<open>char\<close> is one code point): the line boundaries and the white space of Python in
  that range.
\<close>

definition is_linebreak :: "char \<Rightarrow> bool" where
  "is_linebreak c \<longleftrightarrow>
     c \<in> set [CHR 0x0A, CHR 0x0B, CHR 0x0C, CHR 0x0D, CHR 0x1C, CHR 0x1D, CHR 0x1E, CHR 0x85]"

definition isspace :: "char \<Rightarrow> bool" where
  "isspace c \<longleftrightarrow>
     c \<in> set [CHR 0x09, CHR 0x0A, CHR 0x0B, CHR 0x0C, CHR 0x0D, CHR 0x1C, CHR 0x1D,
              CHR 0x1E, CHR 0x1F, CHR 0x20, CHR 0x85, CHR 0xA0]"

fun splitlines_from :: "string \<Rightarrow> string \<Rightarrow> string list" where
  "splitlines_from cur [] = (if cur = [] then [] else [rev cur])"
| "splitlines_from cur [c] = (if is_linebreak c then [rev cur] else [rev (c # cur)])"
| "splitlines_from cur (c # d # cs) =
     (if c = CHR 0x0D \<and> d = CHR 0x0A then rev cur # splitlines_from [] cs
      else if is_linebreak c then rev cur # splitlines_from [] (d # cs)
      else splitlines_from (c # cur) (d # cs))"

definition splitlines :: "string \<Rightarrow> string list" where
  "splitlines s = splitlines_from [] s"

definition strip :: "string \<Rightarrow> string" where
  "strip s = rev (dropWhile isspace (rev (dropWhile isspace s)))"

text \<open>Line 311: \<^verbatim>\<open>[c.strip() for c in choices_raw.splitlines() if c.strip()]\<close>.\<close>

definition parse_choices :: "string \<Rightarrow> string list" where
  "parse_choices raw = map strip (filter (\<lambda>c. strip c \<noteq> []) (splitlines raw))"

text \<open>
  The assignments of lines 315 to 318 mutate the dict \<open>q\<close>, which is an element of the
  list \<open>qs\<close>: the first one with the selected id.
\<close>

fun update_first :: "('a \<Rightarrow> bool) \<Rightarrow> ('a \<Rightarrow> 'a) \<Rightarrow> 'a list \<Rightarrow> 'a list" where
  "update_first P f [] = []"
| "update_first P f (x # xs) = (if P x then f x # xs else x # update_first P f xs)"

record edit_inputs =
  ed_qid :: int
  ed_category :: string
  ed_question :: string
  ed_choices_raw :: string
  ed_answer :: string
  ed_submitted :: bool

record edit_out =
  eo_qs :: "question list"
  eo_file :: "question list"
  eo_messages :: "message list"

text \<open>
  The mode Edit Existing of \<^verbatim>\<open>edit_questions\<close> (lines 296 to 320) on the questions
  document \<open>file\<close>: the list \<open>qs\<close> in memory at the end, the questions document at the
  end, and the messages.
\<close>

definition edit_existing :: "question list \<Rightarrow> edit_inputs \<Rightarrow> py_error + edit_out" where
  "edit_existing file inp =
     (let qs = file
      in if qs = [] then Inr \<lparr>eo_qs = qs, eo_file = file, eo_messages = [NoQuestionsToEdit]\<rparr>
         else
           (case find (\<lambda>q. q_id q = ed_qid inp) qs of
              None \<Rightarrow> Inl StopIteration
            | Some q \<Rightarrow>
               (if ed_submitted inp then
                  (let choices = parse_choices (ed_choices_raw inp)
                   in if ed_answer inp \<notin> set choices then
                        Inr \<lparr>eo_qs = qs, eo_file = file, eo_messages = [AnswerMustMatch]\<rparr>
                      else
                        (let qs' = update_first (\<lambda>q. q_id q = ed_qid inp)
                                     (\<lambda>q. q\<lparr>q_category := ed_category inp,
                                             q_question := ed_question inp,
                                             q_choices := choices,
                                             q_answer := ed_answer inp\<rparr>) qs
                         in Inr \<lparr>eo_qs = qs', eo_file = qs',
                                 eo_messages = [QuestionBankSaved, QuestionUpdated]\<rparr>))
                else Inr \<lparr>eo_qs = qs, eo_file = file, eo_messages = []\<rparr>)))"

section \<open>Notions used to state the properties\<close>

text \<open>
  A click on a button reruns the script with that button, and no other, reported as
  pressed. \<open>press b inp\<close> is the input \<open>inp\<close> with the four buttons set accordingly.
\<close>

datatype button = NoButton | Previous | Submit | Next | Finish

definition press :: "button \<Rightarrow> quiz_inputs \<Rightarrow> quiz_inputs" where
  "press b inp =
     inp\<lparr>in_previous := (b = Previous), in_submit := (b = Submit),
         in_next := (b = Next), in_finish := (b = Finish)\<rparr>"

text \<open>
  A session is in progress at index \<open>i\<close> for the bank \<open>qs\<close> and the configuration of
  \<open>inp\<close> when \<^verbatim>\<open>take_quiz\<close> gets past its two early returns, does not start a new session
  (line 141), and the index is a position of the selected questions.
\<close>

definition in_progress :: "question list \<Rightarrow> quiz_inputs \<Rightarrow> session_state \<Rightarrow> int \<Rightarrow> bool" where
  "in_progress qs inp s i \<longleftrightarrow>
     qs \<noteq> [] \<and> pool qs (in_category inp) \<noteq> [] \<and>
     quiz_running s \<noteq> None \<and>
     last_pool s = Some (map q_id (selected_questions qs inp)) \<and>
     current_q_index s = Some i \<and>
     0 \<le> i \<and> i < int (length (selected_questions qs inp))"

text \<open>The ids of the session's selected questions, none before the first session.\<close>

definition session_pool :: "session_state \<Rightarrow> int list" where
  "session_pool s = (case last_pool s of None \<Rightarrow> [] | Some ids \<Rightarrow> ids)"

text \<open>The number of submissions whose third component \<^verbatim>\<open>correct\<close> is true.\<close>

definition count_correct :: "submission list \<Rightarrow> int" where
  "count_correct xs = int (length (filter (\<lambda>a. snd (snd a)) xs))"

text \<open>
  The invariant behind the score: the score counts the correct submissions, no question
  id is submitted twice, and every submitted id is one of the selected questions.
\<close>

definition tally_ok :: "session_state \<Rightarrow> bool" where
  "tally_ok s \<longleftrightarrow>
     get_score s = count_correct (get_answers s) \<and>
     distinct (map fst (get_answers s)) \<and>
     fst ` set (get_answers s) \<subseteq> set (session_pool s)"

text \<open>The index is a position of the selected questions, whenever there are any.\<close>

definition index_ok :: "session_state \<Rightarrow> bool" where
  "index_ok s \<longleftrightarrow>
     (case last_pool s of
        None \<Rightarrow> True
      | Some ids \<Rightarrow> ids = [] \<or> (0 \<le> get_index s \<and> get_index s < int (length ids)))"

text \<open>The questions document after a call of \<open>edit_existing\<close>: an exception writes nothing.\<close>

definition file_after :: "question list \<Rightarrow> py_error + edit_out \<Rightarrow> question list" where
  "file_after file r = (case r of Inl e \<Rightarrow> file | Inr out \<Rightarrow> eo_file out)"

subsection \<open>Concrete inputs\<close>

text \<open>
  The scenario of the specification: the default bank, category All, three questions, no
  shuffling; \<open>ch\<close> is the choice selected in the radio.
\<close>

definition quiz_all :: "string \<Rightarrow> quiz_inputs" where
  "quiz_all ch =
     \<lparr>in_category = ''All'', in_num_questions = 3, in_shuffle = False,
      in_rnd = (\<lambda>xs. xs), in_choice = ch,
      in_previous = False, in_submit = False, in_next = False, in_finish = False,
      in_now_start = ''2024-01-01T10:00:00'', in_now_result = ''2024-01-01T10:05:00''\<rparr>"

text \<open>Category Math with five questions asked for.\<close>

definition quiz_math :: quiz_inputs where
  "quiz_math =
     \<lparr>in_category = ''Math'', in_num_questions = 5, in_shuffle = False,
      in_rnd = (\<lambda>xs. xs), in_choice = ''56'',
      in_previous = False, in_submit = False, in_next = False, in_finish = False,
      in_now_start = ''2024-01-01T10:00:00'', in_now_result = ''2024-01-01T10:05:00''\<rparr>"

text \<open>One run of the script on the quiz page with button \<open>b\<close> clicked.\<close>

definition click :: "button \<Rightarrow> string \<Rightarrow> event" where
  "click b ch =
     \<lparr>ev_reset = False, ev_page = TakeQuiz, ev_questions = default_questions,
      ev_inputs = press b (quiz_all ch)\<rparr>"

definition fresh_session :: session_state where
  "fresh_session =
     \<lparr>quiz_running = Some True, last_pool = Some [1, 2, 3], current_q_index = Some 0,
      score = Some 0, answers = Some [], start_time = Some ''2024-01-01T10:00:00''\<rparr>"

definition answered_session :: session_state where
  "answered_session =
     \<lparr>quiz_running = Some True, last_pool = Some [1, 2, 3], current_q_index = Some 1,
      score = Some 1, answers = Some [(1, ''Paris'', True), (2, ''49'', False)],
      start_time = Some ''2024-01-01T10:00:00''\<rparr>"

definition last_session :: session_state where
  "last_session =
     \<lparr>quiz_running = Some True, last_pool = Some [1, 2, 3], current_q_index = Some 2,
      score = Some 0, answers = Some [], start_time = Some ''2024-01-01T10:00:00''\<rparr>"

definition finished_session :: session_state where
  "finished_session =
     \<lparr>quiz_running = Some False, last_pool = Some [1, 2, 3], current_q_index = Some 2,
      score = Some 0, answers = Some [], start_time = Some ''2024-01-01T10:00:00''\<rparr>"

text \<open>
  An edit of question 1 whose new choices are Rome and London while the answer field
  still holds the stored answer Paris.
\<close>

definition demo_edit :: edit_inputs where
  "demo_edit =
     \<lparr>ed_qid = 1, ed_category = ''General Knowledge'',
      ed_question = ''What is the capital of France?'',
      ed_choices_raw = ''Rome'' @ [CHR 0x0A] @ ''London'', ed_answer = ''Paris'',
      ed_submitted = True\<rparr>"

section \<open>Auxiliary lemmas\<close>

subsection \<open>Fresh identifiers\<close>

lemma fold_max_Max: "fold max xs (a::int) = Max (insert a (set xs))"
proof (induction xs arbitrary: a)
  case Nil
  then show ?case by simp
next
  case (Cons y ys)
  have "fold max (y # ys) a = Max (insert (max y a) (set ys))"
    using Cons.IH by simp
  also have "\<dots> = Max (insert a (set (y # ys)))"
  proof (cases "set ys = {}")
    case True
    then show ?thesis by (simp add: max.commute)
  next
    case False
    then show ?thesis
      by (simp add: max.assoc max.commute max.left_commute)
  qed
  finally show ?case .
qed

lemma generate_id_nonempty:
  "qs \<noteq> [] \<Longrightarrow> generate_id qs = Max (q_id ` set qs) + 1"
proof -
  assume ne: "qs \<noteq> []"
  then obtain q rest where qs: "qs = q # rest" by (cases qs) auto
  have "generate_id qs = fold max (map q_id rest) (q_id q) + 1"
    by (simp add: generate_id_def qs)
  also have "\<dots> = Max (insert (q_id q) (set (map q_id rest))) + 1"
    by (simp only: fold_max_Max)
  also have "insert (q_id q) (set (map q_id rest)) = q_id ` set qs"
    by (simp add: qs)
  finally show ?thesis .
qed

subsection \<open>Evaluation on concrete inputs\<close>

lemmas quiz_eval =
  take_quiz_def selected_questions_def pool_def py_prefix_def py_index_def init_session_def
  quiz_session_reset_def previous_click_def next_click_def submit_answer_def finish_quiz_def
  calculate_grade_def get_index_def get_score_def get_answers_def state_after_def
  main_session_def press_def in_progress_def session_pool_def count_correct_def
  default_questions_def quiz_all_def quiz_math_def click_def empty_session_def
  fresh_session_def answered_session_def last_session_def finished_session_def

subsection \<open>The Submit Answer button\<close>

lemma find_id_None: "find (\<lambda>a. fst a = k) xs = None \<longleftrightarrow> k \<notin> fst ` set xs"
  by (force simp: find_None_iff)

lemma submit_answer_recorded:
  assumes "q_id q \<in> fst ` set (get_answers s)"
  shows "submit_answer q ch s = (s, AlreadyAnswered)"
proof -
  from assms obtain xs where xs: "answers s = Some xs"
    by (cases "answers s") (auto simp: get_answers_def)
  then have same: "s\<lparr>answers := Some (get_answers s)\<rparr> = s"
    by (simp add: get_answers_def)
  from assms have "find (\<lambda>a. fst a = q_id q) (get_answers s) \<noteq> None"
    by (simp add: find_id_None)
  then obtain a where "find (\<lambda>a. fst a = q_id q) (get_answers s) = Some a" by auto
  then show ?thesis
    by (simp add: submit_answer_def same Let_def)
qed

lemma submit_answer_new:
  assumes "q_id q \<notin> fst ` set (get_answers s)"
  shows "submit_answer q ch s =
     (s\<lparr>answers := Some (get_answers s @ [(q_id q, ch, ch = q_answer q)]),
        score := (if ch = q_answer q then Some (get_score s + 1) else score s)\<rparr>,
      if ch = q_answer q then Correct else Incorrect (q_answer q))"
proof -
  from assms have "find (\<lambda>a. fst a = q_id q) (get_answers s) = None"
    by (simp add: find_id_None)
  then show ?thesis
    by (simp add: submit_answer_def Let_def get_answers_def get_score_def)
qed

lemma submit_answer_frame:
  "current_q_index (fst (submit_answer q ch s)) = current_q_index s"
  "last_pool (fst (submit_answer q ch s)) = last_pool s"
  "quiz_running (fst (submit_answer q ch s)) = quiz_running s"
  "start_time (fst (submit_answer q ch s)) = start_time s"
  by (simp_all add: submit_answer_def Let_def split: option.splits)

subsection \<open>The other buttons\<close>

lemma previous_click_frame:
  assumes "previous_click k s = Inr s'"
  shows "answers s' = answers s" "score s' = score s" "last_pool s' = last_pool s"
    "quiz_running s' = quiz_running s" "start_time s' = start_time s"
  using assms by (auto simp: previous_click_def split: if_splits option.splits)

lemma next_click_frame:
  assumes "next_click k n s = Inr s'"
  shows "answers s' = answers s" "score s' = score s" "last_pool s' = last_pool s"
    "quiz_running s' = quiz_running s" "start_time s' = start_time s"
  using assms by (auto simp: next_click_def split: if_splits option.splits)

lemma previous_click_index:
  assumes "previous_click k s = Inr s'" "get_index s = k"
  shows "get_index s' = (if 0 < k then k - 1 else k)"
  using assms by (auto simp: previous_click_def get_index_def split: if_splits option.splits)

lemma next_click_index:
  assumes "next_click k n s = Inr s'"
  shows "get_index s' = (if k < int n - 1 then get_index s + 1 else get_index s)"
  using assms by (auto simp: next_click_def get_index_def split: if_splits option.splits)

lemma finish_quiz_frame:
  "fst (finish_quiz sel cat now s) = s\<lparr>quiz_running := Some False\<rparr>"
  by (simp add: finish_quiz_def Let_def split_beta)

lemma last_pool_init: "last_pool (init_session ids now s) = Some ids"
  by (auto simp: init_session_def quiz_session_reset_def)

lemma py_index_mem: "py_index xs i = Some x \<Longrightarrow> x \<in> set xs"
  by (auto simp: py_index_def split: if_splits)

lemma py_index_nonempty: "py_index xs i = Some x \<Longrightarrow> xs \<noteq> []"
  by (auto simp: py_index_def split: if_splits)

subsection \<open>A run of the quiz page on a session in progress\<close>

lemma press_fields [simp]:
  "in_category (press b inp) = in_category inp"
  "in_num_questions (press b inp) = in_num_questions inp"
  "in_shuffle (press b inp) = in_shuffle inp"
  "in_rnd (press b inp) = in_rnd inp"
  "in_choice (press b inp) = in_choice inp"
  "in_now_start (press b inp) = in_now_start inp"
  "in_now_result (press b inp) = in_now_result inp"
  "in_previous (press b inp) \<longleftrightarrow> b = Previous"
  "in_submit (press b inp) \<longleftrightarrow> b = Submit"
  "in_next (press b inp) \<longleftrightarrow> b = Next"
  "in_finish (press b inp) \<longleftrightarrow> b = Finish"
  by (simp_all add: press_def)

lemma selected_questions_press [simp]:
  "selected_questions qs (press b inp) = selected_questions qs inp"
  by (simp add: selected_questions_def)

lemma in_progress_press [simp]:
  "in_progress qs (press b inp) s i = in_progress qs inp s i"
  by (simp add: in_progress_def)

lemma in_progress_running:
  "in_progress qs inp (s\<lparr>quiz_running := Some b\<rparr>) i \<longleftrightarrow>
   qs \<noteq> [] \<and> pool qs (in_category inp) \<noteq> [] \<and>
   last_pool s = Some (map q_id (selected_questions qs inp)) \<and>
   current_q_index s = Some i \<and> 0 \<le> i \<and> i < int (length (selected_questions qs inp))"
  by (simp add: in_progress_def)

lemma take_quiz_in_progress:
  assumes "in_progress qs inp s i"
  shows "take_quiz qs inp s =
     (let selected = selected_questions qs inp; q = selected ! nat i
      in case (if in_previous inp then previous_click i s else Inr s) of
           Inl e \<Rightarrow> Inl (e, s)
         | Inr s1 \<Rightarrow>
            (let (s2, m2) =
                   (if in_submit inp
                    then (let (t, m) = submit_answer q (in_choice inp) s1 in (t, [m]))
                    else (s1, []))
             in case (if in_next inp then next_click i (length selected) s2 else Inr s2) of
                  Inl e \<Rightarrow> Inl (e, s2)
                | Inr s3 \<Rightarrow>
                   (if i = int (length selected) - 1 \<and> in_finish inp then
                      (let (s4, m4, r) =
                             finish_quiz selected (in_category inp) (in_now_result inp) s3
                       in Inr \<lparr>out_state = s4, out_messages = m2 @ m4, out_saved = Some r\<rparr>)
                    else Inr \<lparr>out_state = s3, out_messages = m2, out_saved = None\<rparr>)))"
proof -
  let ?sel = "selected_questions qs inp"
  from assms have init: "init_session (map q_id ?sel) (in_now_start inp) s = s"
    by (auto simp: in_progress_def init_session_def)
  from assms have idx: "get_index s = i" by (simp add: in_progress_def get_index_def)
  from assms have q: "py_index ?sel i = Some (?sel ! nat i)"
    by (simp add: in_progress_def py_index_def)
  from assms have ne: "qs \<noteq> []" "pool qs (in_category inp) \<noteq> []"
    by (simp_all add: in_progress_def)
  show ?thesis
    unfolding take_quiz_def Let_def init idx q using ne by simp
qed

lemma take_quiz_nobutton:
  assumes "in_progress qs inp s i"
  shows "take_quiz qs (press NoButton inp) s =
     Inr \<lparr>out_state = s, out_messages = [], out_saved = None\<rparr>"
proof -
  from assms have "in_progress qs (press NoButton inp) s i" by simp
  from take_quiz_in_progress [OF this] show ?thesis
    by (simp add: Let_def)
qed

lemma take_quiz_submit:
  assumes "in_progress qs inp s i"
  shows "take_quiz qs (press Submit inp) s =
     Inr \<lparr>out_state = fst (submit_answer (selected_questions qs inp ! nat i) (in_choice inp) s),
          out_messages = [snd (submit_answer (selected_questions qs inp ! nat i) (in_choice inp) s)],
          out_saved = None\<rparr>"
proof -
  from assms have "in_progress qs (press Submit inp) s i" by simp
  from take_quiz_in_progress [OF this] show ?thesis
    by (simp add: Let_def split_beta)
qed

lemma take_quiz_previous:
  assumes "in_progress qs inp s i"
  shows "take_quiz qs (press Previous inp) s =
     Inr \<lparr>out_state = s\<lparr>current_q_index := Some (if 0 < i then i - 1 else i)\<rparr>,
          out_messages = [], out_saved = None\<rparr>"
proof -
  from assms have "in_progress qs (press Previous inp) s i" by simp
  from take_quiz_in_progress [OF this] assms show ?thesis
    by (simp add: Let_def previous_click_def in_progress_def)
qed

lemma take_quiz_next:
  assumes "in_progress qs inp s i"
  shows "take_quiz qs (press Next inp) s =
     Inr \<lparr>out_state = s\<lparr>current_q_index :=
                  Some (if i < int (length (selected_questions qs inp)) - 1 then i + 1 else i)\<rparr>,
          out_messages = [], out_saved = None\<rparr>"
proof -
  from assms have "in_progress qs (press Next inp) s i" by simp
  from take_quiz_in_progress [OF this] assms show ?thesis
    by (simp add: Let_def next_click_def in_progress_def)
qed

lemma take_quiz_finish:
  assumes "in_progress qs inp s i" "i = int (length (selected_questions qs inp)) - 1"
  shows "take_quiz qs (press Finish inp) s =
     Inr \<lparr>out_state = s\<lparr>quiz_running := Some False\<rparr>,
          out_messages =
            [YouScored (get_score s) (int (length (selected_questions qs inp)))
               (fst (calculate_grade (get_score s) (int (length (selected_questions qs inp)))))
               (snd (calculate_grade (get_score s) (int (length (selected_questions qs inp))))),
             ResultSaved],
          out_saved = Some
            \<lparr>r_timestamp = in_now_result inp, r_score = get_score s,
             r_total = int (length (selected_questions qs inp)),
             r_pct = fst (calculate_grade (get_score s) (int (length (selected_questions qs inp)))),
             r_grade = snd (calculate_grade (get_score s) (int (length (selected_questions qs inp)))),
             r_category = in_category inp, r_answers = get_answers s\<rparr>\<rparr>"
proof -
  from assms have "in_progress qs (press Finish inp) s i" by simp
  from take_quiz_in_progress [OF this] assms(2) show ?thesis
    by (simp add: Let_def finish_quiz_def split_beta)
qed

subsection \<open>The stages of a run of the quiz page\<close>

lemma state_after_take_quiz:
  "state_after (take_quiz qs inp s) =
     (if qs = [] \<or> pool qs (in_category inp) = [] then s
      else
        (let sel = selected_questions qs inp;
             s0 = init_session (map q_id sel) (in_now_start inp) s;
             k = get_index s0
         in case py_index sel k of
              None \<Rightarrow> s0
            | Some q \<Rightarrow>
               (case (if in_previous inp then previous_click k s0 else Inr s0) of
                  Inl e \<Rightarrow> s0
                | Inr s1 \<Rightarrow>
                   (let s2 = (if in_submit inp then fst (submit_answer q (in_choice inp) s1)
                              else s1)
                    in case (if in_next inp then next_click k (length sel) s2 else Inr s2) of
                         Inl e \<Rightarrow> s2
                       | Inr s3 \<Rightarrow>
                          (if k = int (length sel) - 1 \<and> in_finish inp
                           then fst (finish_quiz sel (in_category inp) (in_now_result inp) s3)
                           else s3)))))"
  by (cases "in_previous inp"; cases "in_submit inp"; cases "in_next inp")
     (auto simp: take_quiz_def state_after_def Let_def split_beta
        split: sum.splits option.splits)

lemma take_quiz_stages:
  assumes ne: "qs \<noteq> []" "pool qs (in_category inp) \<noteq> []"
  shows
    "(py_index (selected_questions qs inp)
        (get_index
          (init_session (map q_id (selected_questions qs inp)) (in_now_start inp) s)) = None \<and>
      state_after (take_quiz qs inp s) =
        init_session (map q_id (selected_questions qs inp)) (in_now_start inp) s) \<or>
     (\<exists>q s1 s2 s3.
        py_index (selected_questions qs inp)
          (get_index
            (init_session (map q_id (selected_questions qs inp)) (in_now_start inp) s)) = Some q \<and>
        (s1 = init_session (map q_id (selected_questions qs inp)) (in_now_start inp) s \<or>
         previous_click
           (get_index
             (init_session (map q_id (selected_questions qs inp)) (in_now_start inp) s))
           (init_session (map q_id (selected_questions qs inp)) (in_now_start inp) s) = Inr s1) \<and>
        (s2 = s1 \<or> s2 = fst (submit_answer q (in_choice inp) s1)) \<and>
        (s3 = s2 \<or>
         next_click
           (get_index
             (init_session (map q_id (selected_questions qs inp)) (in_now_start inp) s))
           (length (selected_questions qs inp)) s2 = Inr s3) \<and>
        (state_after (take_quiz qs inp s) = s3 \<or>
         state_after (take_quiz qs inp s) = s3\<lparr>quiz_running := Some False\<rparr>))"
proof -
  let ?sel = "selected_questions qs inp"
  let ?s0 = "init_session (map q_id ?sel) (in_now_start inp) s"
  let ?k = "get_index ?s0"
  let ?fin = "state_after (take_quiz qs inp s)"
  show ?thesis
  proof (cases "py_index ?sel ?k")
    case None
    with ne have "?fin = ?s0" by (simp add: state_after_take_quiz Let_def)
    with None show ?thesis by blast
  next
    case (Some q)
    obtain r1 where r1: "(if in_previous inp then previous_click ?k ?s0 else Inr ?s0) = r1"
      by simp
    show ?thesis
    proof (cases r1)
      case (Inl e)
      with ne Some r1 have "?fin = ?s0" by (simp add: state_after_take_quiz Let_def)
      with Some show ?thesis by blast
    next
      case (Inr s1)
      with r1 have p1: "s1 = ?s0 \<or> previous_click ?k ?s0 = Inr s1"
        by (auto split: if_splits)
      let ?s2 = "if in_submit inp then fst (submit_answer q (in_choice inp) s1) else s1"
      have p2: "?s2 = s1 \<or> ?s2 = fst (submit_answer q (in_choice inp) s1)" by simp
      obtain r3 where r3: "(if in_next inp then next_click ?k (length ?sel) ?s2 else Inr ?s2) = r3"
        by simp
      show ?thesis
      proof (cases r3)
        case (Inl e)
        with ne Some r1 Inr r3 have "?fin = ?s2"
          by (simp add: state_after_take_quiz Let_def)
        with Some p1 p2 show ?thesis by blast
      next
        case s3: (Inr s3)
        with r3 have p3: "s3 = ?s2 \<or> next_click ?k (length ?sel) ?s2 = Inr s3"
          by (auto split: if_splits)
        from ne Some r1 Inr r3 s3 have "?fin = s3 \<or> ?fin = s3\<lparr>quiz_running := Some False\<rparr>"
          by (simp add: state_after_take_quiz Let_def finish_quiz_frame)
        with Some p1 p2 p3 show ?thesis by blast
      qed
    qed
  qed
qed

lemma last_pool_take_quiz:
  assumes "qs \<noteq> []" "pool qs (in_category inp) \<noteq> []"
  shows "last_pool (state_after (take_quiz qs inp s)) = Some (map q_id (selected_questions qs inp))"
proof -
  let ?ids = "map q_id (selected_questions qs inp)"
  let ?s0 = "init_session ?ids (in_now_start inp) s"
  let ?fin = "state_after (take_quiz qs inp s)"
  have lp0: "last_pool ?s0 = Some ?ids" by (simp add: last_pool_init)
  from take_quiz_stages [OF assms, of s]
  consider (raised) "?fin = ?s0"
    | (stages) q s1 s2 s3 where
        "s1 = ?s0 \<or> previous_click (get_index ?s0) ?s0 = Inr s1"
        "s2 = s1 \<or> s2 = fst (submit_answer q (in_choice inp) s1)"
        "s3 = s2 \<or> next_click (get_index ?s0) (length (selected_questions qs inp)) s2 = Inr s3"
        "?fin = s3 \<or> ?fin = s3\<lparr>quiz_running := Some False\<rparr>"
    by blast
  then show ?thesis
  proof cases
    case raised
    with lp0 show ?thesis by simp
  next
    case stages
    from stages(1) lp0 have "last_pool s1 = Some ?ids" by (auto dest: previous_click_frame(3))
    with stages(2) have "last_pool s2 = Some ?ids" by (auto simp: submit_answer_frame)
    with stages(3) have "last_pool s3 = Some ?ids" by (auto dest: next_click_frame(3))
    with stages(4) show ?thesis by auto
  qed
qed

subsection \<open>The score counts the correct submissions\<close>

lemma tally_ok_frame:
  assumes "answers s' = answers s" "score s' = score s" "last_pool s' = last_pool s"
  shows "tally_ok s' = tally_ok s" "session_pool s' = session_pool s"
  using assms by (simp_all add: tally_ok_def get_score_def get_answers_def session_pool_def)

lemma tally_ok_empty: "tally_ok empty_session"
  by (simp add: tally_ok_def empty_session_def get_score_def get_answers_def count_correct_def)

lemma tally_ok_reset: "tally_ok (quiz_session_reset s)"
  by (simp add: tally_ok_def quiz_session_reset_def get_score_def get_answers_def count_correct_def)

lemma tally_ok_init: "tally_ok s \<Longrightarrow> tally_ok (init_session ids now s)"
  by (simp add: init_session_def tally_ok_def quiz_session_reset_def get_score_def
      get_answers_def count_correct_def)

lemma session_pool_init: "session_pool (init_session ids now s) = ids"
  by (simp add: session_pool_def last_pool_init)

lemma tally_ok_submit:
  assumes "tally_ok s" "q_id q \<in> set (session_pool s)"
  shows "tally_ok (fst (submit_answer q ch s)) \<and>
         session_pool (fst (submit_answer q ch s)) = session_pool s"
proof (cases "q_id q \<in> fst ` set (get_answers s)")
  case True
  with assms show ?thesis by (simp add: submit_answer_recorded)
next
  case False
  with assms show ?thesis
    by (auto simp: submit_answer_new tally_ok_def get_score_def get_answers_def
        session_pool_def count_correct_def)
qed

lemma tally_ok_take_quiz:
  assumes "tally_ok s"
  shows "tally_ok (state_after (take_quiz qs inp s))"
proof (cases "qs = [] \<or> pool qs (in_category inp) = []")
  case True
  with assms show ?thesis by (simp add: state_after_take_quiz)
next
  case False
  let ?sel = "selected_questions qs inp"
  let ?s0 = "init_session (map q_id ?sel) (in_now_start inp) s"
  let ?fin = "state_after (take_quiz qs inp s)"
  have t0: "tally_ok ?s0" and p0: "session_pool ?s0 = map q_id ?sel"
    using assms by (simp_all add: tally_ok_init session_pool_init)
  from False take_quiz_stages [of qs inp s]
  consider (raised) "?fin = ?s0"
    | (stages) q s1 s2 s3 where
        "py_index ?sel (get_index ?s0) = Some q"
        "s1 = ?s0 \<or> previous_click (get_index ?s0) ?s0 = Inr s1"
        "s2 = s1 \<or> s2 = fst (submit_answer q (in_choice inp) s1)"
        "s3 = s2 \<or> next_click (get_index ?s0) (length ?sel) s2 = Inr s3"
        "?fin = s3 \<or> ?fin = s3\<lparr>quiz_running := Some False\<rparr>"
    by blast
  then show ?thesis
  proof cases
    case raised
    with t0 show ?thesis by simp
  next
    case stages
    from stages(1) p0 have qmem: "q_id q \<in> set (session_pool ?s0)"
      by (auto dest: py_index_mem)
    from stages(2) t0 have s1: "tally_ok s1 \<and> session_pool s1 = session_pool ?s0"
      using tally_ok_frame [of s1 ?s0] previous_click_frame [of "get_index ?s0" ?s0 s1]
      by auto
    with stages(3) qmem have s2: "tally_ok s2 \<and> session_pool s2 = session_pool ?s0"
      using tally_ok_submit [of s1 q "in_choice inp"] by auto
    with stages(4) have s3: "tally_ok s3"
      using tally_ok_frame [of s3 s2] next_click_frame [of "get_index ?s0" "length ?sel" s2 s3]
      by auto
    then have "tally_ok (s3\<lparr>quiz_running := Some False\<rparr>)"
      using tally_ok_frame(1) [of "s3\<lparr>quiz_running := Some False\<rparr>" s3] by simp
    with s3 stages(5) show ?thesis by auto
  qed
qed

lemma tally_ok_main: "tally_ok s \<Longrightarrow> tally_ok (main_session ev s)"
  by (simp add: main_session_def Let_def tally_ok_take_quiz tally_ok_reset)

lemma tally_ok_run: "tally_ok s \<Longrightarrow> tally_ok (run s evs)"
  by (induction evs arbitrary: s) (simp_all add: tally_ok_main)

lemma tally_ok_length:
  assumes "tally_ok s"
  shows "length (get_answers s) \<le> length (session_pool s)"
proof -
  from assms have d: "distinct (map fst (get_answers s))"
    and sub: "fst ` set (get_answers s) \<subseteq> set (session_pool s)"
    by (simp_all add: tally_ok_def)
  have "length (get_answers s) = card (set (map fst (get_answers s)))"
    using distinct_card [OF d] by simp
  also have "\<dots> \<le> card (set (session_pool s))"
    using sub by (intro card_mono) simp_all
  also have "\<dots> \<le> length (session_pool s)" by (rule card_length)
  finally show ?thesis .
qed

subsection \<open>The index stays a position of the selected questions\<close>

lemma index_ok_frame:
  assumes "current_q_index s' = current_q_index s" "last_pool s' = last_pool s"
  shows "index_ok s' = index_ok s"
proof -
  from assms(1) have "get_index s' = get_index s" by (simp add: get_index_def)
  with assms(2) show ?thesis by (simp add: index_ok_def split: option.splits)
qed

lemma index_ok_empty: "index_ok empty_session"
  by (simp add: index_ok_def empty_session_def)

lemma index_ok_reset: "index_ok s \<Longrightarrow> index_ok (quiz_session_reset s)"
  by (auto simp: index_ok_def quiz_session_reset_def get_index_def split: option.splits)

lemma index_ok_init: "index_ok s \<Longrightarrow> index_ok (init_session ids now s)"
  by (auto simp: index_ok_def init_session_def quiz_session_reset_def get_index_def
      split: option.splits)

lemma index_ok_take_quiz:
  assumes "index_ok s"
  shows "index_ok (state_after (take_quiz qs inp s))"
proof (cases "qs = [] \<or> pool qs (in_category inp) = []")
  case True
  with assms show ?thesis by (simp add: state_after_take_quiz)
next
  case False
  let ?sel = "selected_questions qs inp"
  let ?s0 = "init_session (map q_id ?sel) (in_now_start inp) s"
  let ?k = "get_index ?s0"
  let ?fin = "state_after (take_quiz qs inp s)"
  have ok0: "index_ok ?s0" and lp0: "last_pool ?s0 = Some (map q_id ?sel)"
    using assms by (simp_all add: index_ok_init last_pool_init)
  from False take_quiz_stages [of qs inp s]
  consider (raised) "?fin = ?s0"
    | (stages) q s1 s2 s3 where
        "py_index ?sel ?k = Some q"
        "s1 = ?s0 \<or> previous_click ?k ?s0 = Inr s1"
        "s2 = s1 \<or> s2 = fst (submit_answer q (in_choice inp) s1)"
        "s3 = s2 \<or> next_click ?k (length ?sel) s2 = Inr s3"
        "?fin = s3 \<or> ?fin = s3\<lparr>quiz_running := Some False\<rparr>"
    by blast
  then show ?thesis
  proof cases
    case raised
    with ok0 show ?thesis by simp
  next
    case stages
    from stages(1) have "?sel \<noteq> []" by (rule py_index_nonempty)
    with ok0 lp0 have k: "0 \<le> ?k" "?k < int (length ?sel)"
      by (simp_all add: index_ok_def)
    from stages(2) have lp1: "last_pool s1 = Some (map q_id ?sel)"
      using lp0 previous_click_frame(3) [of ?k ?s0 s1] by auto
    from stages(2) have i1: "get_index s1 = ?k \<or> (0 < ?k \<and> get_index s1 = ?k - 1)"
      using previous_click_index [of ?k ?s0 s1] by (auto split: if_splits)
    from stages(3) lp1 have lp2: "last_pool s2 = Some (map q_id ?sel)"
      by (auto simp: submit_answer_frame)
    from stages(3) have i2: "get_index s2 = get_index s1"
      by (auto simp: get_index_def submit_answer_frame)
    from stages(4) lp2 have lp3: "last_pool s3 = Some (map q_id ?sel)"
      using next_click_frame(3) [of ?k "length ?sel" s2 s3] by auto
    from stages(4) have i3: "get_index s3 = get_index s2 \<or>
        (?k < int (length ?sel) - 1 \<and> get_index s3 = get_index s2 + 1)"
      using next_click_index [of ?k "length ?sel" s2 s3] by (auto split: if_splits)
    have ok3: "index_ok s3"
      unfolding index_ok_def lp3 using i3 i2 i1 k by auto
    then have "index_ok (s3\<lparr>quiz_running := Some False\<rparr>)"
      using index_ok_frame [of "s3\<lparr>quiz_running := Some False\<rparr>" s3] by simp
    with ok3 stages(5) show ?thesis by auto
  qed
qed

lemma index_ok_main: "index_ok s \<Longrightarrow> index_ok (main_session ev s)"
  by (simp add: main_session_def Let_def index_ok_take_quiz index_ok_reset)

lemma index_ok_run: "index_ok s \<Longrightarrow> index_ok (run s evs)"
  by (induction evs arbitrary: s) (simp_all add: index_ok_main)

section \<open>Properties of the program\<close>

text \<open>
  C1. Submit Answer is idempotent per question. For every session state, question and
  choice: when a submission for the question's id is already recorded, the call leaves the
  whole session state (score and submissions included) unchanged and signals
  \<open>AlreadyAnswered\<close>; otherwise it appends the submission
  \<open>(id, choice, choice = answer)\<close> and adds one to the score exactly when the choice is
  the answer. A second call for the same question, with the same or another choice, is
  therefore always the first case. On a session in progress a click on Submit Answer is
  one such call on the current question.
\<close>

theorem submit_answer_idempotent:
  "(q_id q \<in> fst ` set (get_answers s) \<longrightarrow>
      submit_answer q ch s = (s, AlreadyAnswered)) \<and>
   (q_id q \<notin> fst ` set (get_answers s) \<longrightarrow>
      answers (fst (submit_answer q ch s))
        = Some (get_answers s @ [(q_id q, ch, ch = q_answer q)]) \<and>
      get_score (fst (submit_answer q ch s))
        = get_score s + (if ch = q_answer q then 1 else 0) \<and>
      snd (submit_answer q ch s)
        = (if ch = q_answer q then Correct else Incorrect (q_answer q))) \<and>
   submit_answer q ch' (fst (submit_answer q ch s))
     = (fst (submit_answer q ch s), AlreadyAnswered) \<and>
   (in_progress qs inp s i \<longrightarrow>
      take_quiz qs (press Submit inp) s =
        Inr \<lparr>out_state =
               fst (submit_answer (selected_questions qs inp ! nat i) (in_choice inp) s),
             out_messages =
               [snd (submit_answer (selected_questions qs inp ! nat i) (in_choice inp) s)],
             out_saved = None\<rparr>)"
proof -
  have first: "q_id q \<in> fst ` set (get_answers (fst (submit_answer q ch s)))"
  proof (cases "q_id q \<in> fst ` set (get_answers s)")
    case True
    then show ?thesis by (simp add: submit_answer_recorded)
  next
    case False
    then show ?thesis by (simp add: submit_answer_new get_answers_def)
  qed
  have "submit_answer q ch' (fst (submit_answer q ch s))
     = (fst (submit_answer q ch s), AlreadyAnswered)"
    using first by (rule submit_answer_recorded)
  then show ?thesis
    by (auto simp: submit_answer_recorded submit_answer_new get_score_def take_quiz_submit)
qed

theorem submit_answer_idempotent_witness:
  "in_progress default_questions (quiz_all ''Paris'') fresh_session 0 \<and>
   q_id (default_questions ! 0) \<notin> fst ` set (get_answers fresh_session) \<and>
   take_quiz default_questions (press Submit (quiz_all ''Paris'')) fresh_session =
     Inr \<lparr>out_state = fresh_session\<lparr>score := Some 1, answers := Some [(1, ''Paris'', True)]\<rparr>,
          out_messages = [Correct], out_saved = None\<rparr> \<and>
   q_id (default_questions ! 0) \<in>
     fst ` set (get_answers (fresh_session\<lparr>score := Some 1, answers := Some [(1, ''Paris'', True)]\<rparr>)) \<and>
   submit_answer (default_questions ! 0) ''London''
       (fresh_session\<lparr>score := Some 1, answers := Some [(1, ''Paris'', True)]\<rparr>) =
     (fresh_session\<lparr>score := Some 1, answers := Some [(1, ''Paris'', True)]\<rparr>, AlreadyAnswered)"
  using submit_answer_idempotent [where q = "default_questions ! 0" and s = fresh_session
      and ch = "''Paris''" and ch' = "''London''" and qs = default_questions
      and inp = "quiz_all ''Paris''" and i = 0]
    submit_answer_idempotent [where q = "default_questions ! 0"
      and s = "fresh_session\<lparr>score := Some 1, answers := Some [(1, ''Paris'', True)]\<rparr>"
      and ch = "''London''" and ch' = "''London''" and qs = default_questions
      and inp = "quiz_all ''Paris''" and i = 0]
  by (simp add: quiz_eval)

text \<open>
  C2. In every session state the application can reach from the empty session state by
  runs of the script (each with or without the sidebar reset, on any page, with any bank
  and any widget values), the score equals the number of recorded submissions whose
  correctness flag is true, and there are at most as many submissions as selected
  questions. The selected questions are those whose ids the session holds; after a run
  of the quiz page that returns having shown a question, they are the selected questions
  of that run.
\<close>

theorem session_invariant:
  "get_score (run empty_session evs) = count_correct (get_answers (run empty_session evs)) \<and>
   length (get_answers (run empty_session evs)) \<le> length (session_pool (run empty_session evs)) \<and>
   (qs \<noteq> [] \<and> pool qs (in_category inp) \<noteq> [] \<and>
    take_quiz qs inp (run empty_session evs) = Inr out \<longrightarrow>
      get_score (out_state out) = count_correct (get_answers (out_state out)) \<and>
      length (get_answers (out_state out)) \<le> length (selected_questions qs inp))"
proof -
  let ?s = "run empty_session evs"
  have ok: "tally_ok ?s" by (rule tally_ok_run [OF tally_ok_empty])
  have a: "get_score ?s = count_correct (get_answers ?s)"
    using ok by (simp add: tally_ok_def)
  have b: "length (get_answers ?s) \<le> length (session_pool ?s)"
    using ok by (rule tally_ok_length)
  have c: "get_score (out_state out) = count_correct (get_answers (out_state out)) \<and>
      length (get_answers (out_state out)) \<le> length (selected_questions qs inp)"
    if ne: "qs \<noteq> []" "pool qs (in_category inp) \<noteq> []"
      and out: "take_quiz qs inp ?s = Inr out"
  proof -
    from out have fin: "state_after (take_quiz qs inp ?s) = out_state out"
      by (simp add: state_after_def)
    from tally_ok_take_quiz [OF ok, of qs inp] fin have ok': "tally_ok (out_state out)"
      by simp
    from last_pool_take_quiz [OF ne, of ?s] fin
    have "session_pool (out_state out) = map q_id (selected_questions qs inp)"
      by (simp add: session_pool_def)
    with tally_ok_length [OF ok'] ok' show ?thesis
      by (simp add: tally_ok_def)
  qed
  from a b c show ?thesis by blast
qed

theorem session_invariant_witness:
  "run empty_session
     [click NoButton ''Paris'', click Submit ''Paris'', click Next ''Paris'', click Submit ''49'']
     = answered_session \<and>
   get_score answered_session = 1 \<and>
   count_correct (get_answers answered_session) = 1 \<and>
   length (get_answers answered_session) = 2 \<and>
   length (session_pool answered_session) = 3 \<and>
   default_questions \<noteq> [] \<and>
   pool default_questions (in_category (press Next (quiz_all ''49''))) \<noteq> [] \<and>
   take_quiz default_questions (press Next (quiz_all ''49'')) answered_session =
     Inr \<lparr>out_state = answered_session\<lparr>current_q_index := Some 2\<rparr>,
          out_messages = [], out_saved = None\<rparr> \<and>
   length (selected_questions default_questions (press Next (quiz_all ''49''))) = 3"
proof -
  have r: "run empty_session
     [click NoButton ''Paris'', click Submit ''Paris'', click Next ''Paris'', click Submit ''49'']
     = answered_session"
    by (simp add: quiz_eval)
  show ?thesis
    using session_invariant [where evs = "[click NoButton ''Paris'', click Submit ''Paris'',
        click Next ''Paris'', click Submit ''49'']" and qs = default_questions
        and inp = "press Next (quiz_all ''49'')"
        and out = "\<lparr>out_state = answered_session\<lparr>current_q_index := Some 2\<rparr>,
          out_messages = [], out_saved = None\<rparr>"]
    unfolding r by (simp add: quiz_eval)
qed



text \<open>
  C4, as the code has it. A click on Finish Quiz at the last question builds the result
  record from the score, the number of selected questions and the submissions, saves it
  and sets \<open>quiz_running\<close> to \<open>False\<close>, leaving every other key of the session state as
  it was. The value of \<open>quiz_running\<close> is never read: the finished session is still in
  progress for the same selection, and Submit Answer, Previous and Next act on it as on
  any session in progress.
\<close>

theorem finish_marks_only:
  assumes "in_progress qs inp s i" "i = int (length (selected_questions qs inp)) - 1"
  shows "take_quiz qs (press Finish inp) s =
     Inr \<lparr>out_state = s\<lparr>quiz_running := Some False\<rparr>,
          out_messages =
            [YouScored (get_score s) (int (length (selected_questions qs inp)))
               (fst (calculate_grade (get_score s) (int (length (selected_questions qs inp)))))
               (snd (calculate_grade (get_score s) (int (length (selected_questions qs inp))))),
             ResultSaved],
          out_saved = Some
            \<lparr>r_timestamp = in_now_result inp, r_score = get_score s,
             r_total = int (length (selected_questions qs inp)),
             r_pct = fst (calculate_grade (get_score s) (int (length (selected_questions qs inp)))),
             r_grade = snd (calculate_grade (get_score s) (int (length (selected_questions qs inp)))),
             r_category = in_category inp, r_answers = get_answers s\<rparr>\<rparr> \<and>
   in_progress qs inp (s\<lparr>quiz_running := Some False\<rparr>) i \<and>
   take_quiz qs (press Submit inp) (s\<lparr>quiz_running := Some False\<rparr>) =
     Inr \<lparr>out_state = fst (submit_answer (selected_questions qs inp ! nat i) (in_choice inp)
                              (s\<lparr>quiz_running := Some False\<rparr>)),
          out_messages = [snd (submit_answer (selected_questions qs inp ! nat i) (in_choice inp)
                              (s\<lparr>quiz_running := Some False\<rparr>))],
          out_saved = None\<rparr> \<and>
   take_quiz qs (press Previous inp) (s\<lparr>quiz_running := Some False\<rparr>) =
     Inr \<lparr>out_state = s\<lparr>quiz_running := Some False,
                         current_q_index := Some (if 0 < i then i - 1 else i)\<rparr>,
          out_messages = [], out_saved = None\<rparr> \<and>
   take_quiz qs (press Next inp) (s\<lparr>quiz_running := Some False\<rparr>) =
     Inr \<lparr>out_state = s\<lparr>quiz_running := Some False\<rparr>, out_messages = [], out_saved = None\<rparr>"
proof -
  let ?f = "s\<lparr>quiz_running := Some False\<rparr>"
  from assms(1) have ip: "in_progress qs inp ?f i"
    by (simp add: in_progress_def)
  from assms(1) have "current_q_index s = Some i"
    by (simp add: in_progress_def)
  then have same: "?f\<lparr>current_q_index := Some i\<rparr> = ?f"
    by (cases s) simp
  have "take_quiz qs (press Next inp) ?f =
     Inr \<lparr>out_state = ?f\<lparr>current_q_index := Some i\<rparr>, out_messages = [], out_saved = None\<rparr>"
    using take_quiz_next [OF ip] assms(2) by simp
  then have nxt: "take_quiz qs (press Next inp) ?f =
     Inr \<lparr>out_state = ?f, out_messages = [], out_saved = None\<rparr>"
    by (simp only: same)
  note fin = take_quiz_finish [OF assms]
    and sub = take_quiz_submit [OF ip]
    and prv = take_quiz_previous [OF ip]
  show ?thesis
    by (intro conjI fin ip sub prv nxt)
qed

theorem finish_marks_only_witness:
  "in_progress default_questions (quiz_all ''H2O'') last_session 2 \<and>
   (2::int) = int (length (selected_questions default_questions (quiz_all ''H2O''))) - 1 \<and>
   take_quiz default_questions (press Finish (quiz_all ''H2O'')) last_session =
     Inr \<lparr>out_state = finished_session,
          out_messages = [YouScored 0 3 0 ''D'', ResultSaved],
          out_saved = Some
            \<lparr>r_timestamp = ''2024-01-01T10:05:00'', r_score = 0, r_total = 3, r_pct = 0,
             r_grade = ''D'', r_category = ''All'', r_answers = []\<rparr>\<rparr> \<and>
   take_quiz default_questions (press Submit (quiz_all ''H2O'')) finished_session =
     Inr \<lparr>out_state = finished_session\<lparr>score := Some 1, answers := Some [(3, ''H2O'', True)]\<rparr>,
          out_messages = [Correct], out_saved = None\<rparr> \<and>
   take_quiz default_questions (press Previous (quiz_all ''H2O'')) finished_session =
     Inr \<lparr>out_state = finished_session\<lparr>current_q_index := Some 1\<rparr>,
          out_messages = [], out_saved = None\<rparr>"
proof -
  have h1: "in_progress default_questions (quiz_all ''H2O'') last_session 2"
    by (simp add: quiz_eval)
  have sel: "selected_questions default_questions (quiz_all ''H2O'') = default_questions"
    by (simp add: quiz_eval)
  have len: "length default_questions = 3"
    by (simp add: default_questions_def)
  have h2: "(2::int) = int (length (selected_questions default_questions (quiz_all ''H2O''))) - 1"
    by (simp add: sel len)
  have fin: "last_session\<lparr>quiz_running := Some False\<rparr> = finished_session"
    by (simp add: last_session_def finished_session_def)
  have sc: "get_score last_session = 0" "get_answers last_session = []"
    by (simp_all add: last_session_def get_score_def get_answers_def)
  have gr: "calculate_grade 0 3 = (0, ''D'')"
    by (simp add: calculate_grade_def)
  have inp: "in_now_result (quiz_all ''H2O'') = ''2024-01-01T10:05:00''"
    "in_category (quiz_all ''H2O'') = ''All''" "in_choice (quiz_all ''H2O'') = ''H2O''"
    by (simp_all add: quiz_all_def)
  have sub: "submit_answer (default_questions ! nat 2) ''H2O'' finished_session =
      (finished_session\<lparr>score := Some 1, answers := Some [(3, ''H2O'', True)]\<rparr>, Correct)"
    by (simp add: submit_answer_def default_questions_def finished_session_def
        get_answers_def get_score_def)
  have prv: "finished_session\<lparr>current_q_index := Some (if (0::int) < 2 then 2 - 1 else 2)\<rparr>
      = finished_session\<lparr>current_q_index := Some 1\<rparr>"
    by simp
  note t = finish_marks_only [OF h1 h2, unfolded fin sel len sc inp]
  from t have rest:
    "take_quiz default_questions (press Finish (quiz_all ''H2O'')) last_session =
     Inr \<lparr>out_state = finished_session,
          out_messages = [YouScored 0 3 0 ''D'', ResultSaved],
          out_saved = Some
            \<lparr>r_timestamp = ''2024-01-01T10:05:00'', r_score = 0, r_total = 3, r_pct = 0,
             r_grade = ''D'', r_category = ''All'', r_answers = []\<rparr>\<rparr> \<and>
   take_quiz default_questions (press Submit (quiz_all ''H2O'')) finished_session =
     Inr \<lparr>out_state = finished_session\<lparr>score := Some 1, answers := Some [(3, ''H2O'', True)]\<rparr>,
          out_messages = [Correct], out_saved = None\<rparr> \<and>
   take_quiz default_questions (press Previous (quiz_all ''H2O'')) finished_session =
     Inr \<lparr>out_state = finished_session\<lparr>current_q_index := Some 1\<rparr>,
          out_messages = [], out_saved = None\<rparr>"
    by (simp only: gr sub prv fst_conv snd_conv of_nat_numeral simp_thms)
  from h1 h2 rest show ?thesis by (intro conjI) (erule conjE | assumption)+
qed

text \<open>
  C4, as the specification has it, fails: in the scenario of the specification, after the
  click on Finish Quiz has set \<open>quiz_running\<close> to \<open>False\<close>, and with the selected
  questions unchanged, a click on Submit Answer changes the score and the submissions
  and a click on Previous changes the index.
\<close>

theorem finished_session_accepts_counterexample:
  "run empty_session
     [click NoButton ''Paris'', click Next ''Paris'', click Next ''54'', click Finish ''H2O'']
     = finished_session \<and>
   quiz_running finished_session = Some False \<and>
   score finished_session = Some 0 \<and>
   answers finished_session = Some [] \<and>
   current_q_index finished_session = Some 2 \<and>
   main_session (click Submit ''H2O'') finished_session
     = finished_session\<lparr>score := Some 1, answers := Some [(3, ''H2O'', True)]\<rparr> \<and>
   main_session (click Previous ''H2O'') finished_session
     = finished_session\<lparr>current_q_index := Some 1\<rparr>"
  by (simp add: quiz_eval)



text \<open>
  C6. On a session in progress at index \<open>i\<close>, a click on Previous moves the index to
  \<open>i - 1\<close> and a click on Next to \<open>i + 1\<close>, except that Previous at index 0 and Next at the
  last index leave the session state unchanged; neither raises an error, and the session
  is again in progress at the new index. Hence in every session state the application
  can reach, the index is a position of the selected questions.
\<close>

theorem advance_clamped:
  assumes "in_progress qs inp s i"
  shows "take_quiz qs (press Previous inp) s =
     Inr \<lparr>out_state = s\<lparr>current_q_index := Some (if 0 < i then i - 1 else i)\<rparr>,
          out_messages = [], out_saved = None\<rparr> \<and>
   take_quiz qs (press Next inp) s =
     Inr \<lparr>out_state = s\<lparr>current_q_index :=
                  Some (if i < int (length (selected_questions qs inp)) - 1 then i + 1 else i)\<rparr>,
          out_messages = [], out_saved = None\<rparr> \<and>
   in_progress qs inp (s\<lparr>current_q_index := Some (if 0 < i then i - 1 else i)\<rparr>)
     (if 0 < i then i - 1 else i) \<and>
   in_progress qs inp
     (s\<lparr>current_q_index :=
          Some (if i < int (length (selected_questions qs inp)) - 1 then i + 1 else i)\<rparr>)
     (if i < int (length (selected_questions qs inp)) - 1 then i + 1 else i) \<and>
   index_ok (run empty_session evs)"
proof -
  have moved: "in_progress qs inp (s\<lparr>current_q_index := Some j\<rparr>) j"
    if "0 \<le> j" "j < int (length (selected_questions qs inp))" for j
    using assms that by (simp add: in_progress_def)
  have p: "in_progress qs inp (s\<lparr>current_q_index := Some (if 0 < i then i - 1 else i)\<rparr>)
     (if 0 < i then i - 1 else i)"
    using assms by (intro moved) (auto simp: in_progress_def)
  have n: "in_progress qs inp
     (s\<lparr>current_q_index :=
          Some (if i < int (length (selected_questions qs inp)) - 1 then i + 1 else i)\<rparr>)
     (if i < int (length (selected_questions qs inp)) - 1 then i + 1 else i)"
    using assms by (intro moved) (auto simp: in_progress_def)
  have r: "index_ok (run empty_session evs)"
    by (rule index_ok_run [OF index_ok_empty])
  show ?thesis
    by (intro conjI take_quiz_previous [OF assms] take_quiz_next [OF assms] p n r)
qed

theorem advance_clamped_witness:
  "in_progress default_questions (quiz_all ''Paris'') fresh_session 0 \<and>
   take_quiz default_questions (press Previous (quiz_all ''Paris'')) fresh_session =
     Inr \<lparr>out_state = fresh_session, out_messages = [], out_saved = None\<rparr> \<and>
   take_quiz default_questions (press Next (quiz_all ''Paris'')) fresh_session =
     Inr \<lparr>out_state = fresh_session\<lparr>current_q_index := Some 1\<rparr>,
          out_messages = [], out_saved = None\<rparr> \<and>
   in_progress default_questions (quiz_all ''Paris'')
     (fresh_session\<lparr>current_q_index := Some 1\<rparr>) 1 \<and>
   index_ok (run empty_session [click NoButton ''Paris'', click Next ''Paris''])"
proof -
  have h: "in_progress default_questions (quiz_all ''Paris'') fresh_session 0"
    by (simp add: quiz_eval)
  have sel: "selected_questions default_questions (quiz_all ''Paris'') = default_questions"
    by (simp add: quiz_eval)
  have len: "length default_questions = 3"
    by (simp add: default_questions_def)
  have same: "fresh_session\<lparr>current_q_index := Some 0\<rparr> = fresh_session"
    by (simp add: fresh_session_def)
  note t = advance_clamped [OF h, where evs = "[click NoButton ''Paris'', click Next ''Paris'']",
      unfolded sel len]
  from t have rest:
    "take_quiz default_questions (press Previous (quiz_all ''Paris'')) fresh_session =
       Inr \<lparr>out_state = fresh_session, out_messages = [], out_saved = None\<rparr> \<and>
     take_quiz default_questions (press Next (quiz_all ''Paris'')) fresh_session =
       Inr \<lparr>out_state = fresh_session\<lparr>current_q_index := Some 1\<rparr>,
            out_messages = [], out_saved = None\<rparr> \<and>
     in_progress default_questions (quiz_all ''Paris'')
       (fresh_session\<lparr>current_q_index := Some 1\<rparr>) 1 \<and>
     index_ok (run empty_session [click NoButton ''Paris'', click Next ''Paris''])"
    by (simp add: same)
  from h rest show ?thesis by (intro conjI) (erule conjE | assumption)+
qed

text \<open>
  C7. For every question bank, \<open>generate_id\<close> returns the largest existing id plus one,
  and 1 for the empty bank; for a non-empty bank the result is strictly greater than
  every id in the bank and is not the id of any of its questions.
\<close>

theorem generate_id_fresh:
  "generate_id [] = 1 \<and>
   (qs \<noteq> [] \<longrightarrow>
      generate_id qs = Max (q_id ` set qs) + 1 \<and>
      (\<forall>q \<in> set qs. q_id q < generate_id qs) \<and>
      generate_id qs \<notin> q_id ` set qs)"
proof -
  have empty: "generate_id [] = 1" by (simp add: generate_id_def)
  have rest: "generate_id qs = Max (q_id ` set qs) + 1 \<and>
      (\<forall>q \<in> set qs. q_id q < generate_id qs) \<and>
      generate_id qs \<notin> q_id ` set qs" if ne: "qs \<noteq> []"
  proof -
    have eq: "generate_id qs = Max (q_id ` set qs) + 1"
      using ne by (rule generate_id_nonempty)
    have above: "q_id q < generate_id qs" if "q \<in> set qs" for q
    proof -
      have "q_id q \<le> Max (q_id ` set qs)" using that by simp
      then show ?thesis using eq by simp
    qed
    have "generate_id qs \<notin> q_id ` set qs"
    proof
      assume "generate_id qs \<in> q_id ` set qs"
      then obtain q where "q \<in> set qs" "generate_id qs = q_id q" by auto
      with above [of q] show False by simp
    qed
    with eq above show ?thesis by blast
  qed
  from empty rest show ?thesis by blast
qed

theorem generate_id_fresh_witness:
  "default_questions \<noteq> [] \<and> generate_id default_questions = 4 \<and>
   Max (q_id ` set default_questions) = 3 \<and>
   q_id (default_questions ! 0) < generate_id default_questions \<and>
   q_id (default_questions ! 1) < generate_id default_questions \<and>
   q_id (default_questions ! 2) < generate_id default_questions \<and>
   generate_id default_questions \<notin> q_id ` set default_questions"
proof -
  have ne: "default_questions \<noteq> []" by (simp add: default_questions_def)
  have val: "generate_id default_questions = 4"
    by (simp add: generate_id_def default_questions_def)
  have mem: "default_questions ! 0 \<in> set default_questions"
    "default_questions ! 1 \<in> set default_questions"
    "default_questions ! 2 \<in> set default_questions"
    by (simp_all add: default_questions_def)
  from generate_id_fresh [of default_questions] ne
  have eq: "generate_id default_questions = Max (q_id ` set default_questions) + 1"
    and above: "\<forall>q \<in> set default_questions. q_id q < generate_id default_questions"
    and fresh: "generate_id default_questions \<notin> q_id ` set default_questions"
    by blast+
  from eq val have mx: "Max (q_id ` set default_questions) = 3" by linarith
  from above mem
  have lt: "q_id (default_questions ! 0) < generate_id default_questions"
    "q_id (default_questions ! 1) < generate_id default_questions"
    "q_id (default_questions ! 2) < generate_id default_questions"
    by blast+
  from ne val mx lt fresh show ?thesis by (intro conjI)
qed

text \<open>
  C8. An edit whose answer is not one of the new choices is rejected: the questions
  document and the list of questions in memory, every field of every record, are left as
  they were, nothing is saved, and the message says that the answer must match one of the
  choices. The document changes, or is saved, only when the form was submitted with an
  answer that is among the new choices.
\<close>

theorem edit_rejected_unchanged:
  "(ed_answer inp \<notin> set (parse_choices (ed_choices_raw inp)) \<longrightarrow>
      file_after doc (edit_existing doc inp) = doc \<and>
      (\<forall>out. edit_existing doc inp = Inr out \<longrightarrow>
         eo_qs out = doc \<and> eo_file out = doc \<and>
         QuestionBankSaved \<notin> set (eo_messages out) \<and>
         (doc \<noteq> [] \<and> ed_submitted inp \<longrightarrow> eo_messages out = [AnswerMustMatch]))) \<and>
   (\<forall>out. edit_existing doc inp = Inr out \<and>
      (eo_file out \<noteq> doc \<or> eo_qs out \<noteq> doc \<or> QuestionBankSaved \<in> set (eo_messages out)) \<longrightarrow>
      ed_submitted inp \<and> ed_answer inp \<in> set (parse_choices (ed_choices_raw inp)))"
  by (auto simp: edit_existing_def file_after_def Let_def split: option.splits if_splits)

theorem edit_rejected_unchanged_witness:
  "ed_answer demo_edit \<notin> set (parse_choices (ed_choices_raw demo_edit)) \<and>
   parse_choices (ed_choices_raw demo_edit) = [''Rome'', ''London''] \<and>
   edit_existing default_questions demo_edit =
     Inr \<lparr>eo_qs = default_questions, eo_file = default_questions,
          eo_messages = [AnswerMustMatch]\<rparr> \<and>
   file_after default_questions (edit_existing default_questions demo_edit) = default_questions \<and>
   edit_existing default_questions (demo_edit\<lparr>ed_answer := ''Rome''\<rparr>) =
     Inr \<lparr>eo_qs = (default_questions ! 0)\<lparr>q_choices := [''Rome'', ''London''], q_answer := ''Rome''\<rparr>
                   # tl default_questions,
          eo_file = (default_questions ! 0)\<lparr>q_choices := [''Rome'', ''London''], q_answer := ''Rome''\<rparr>
                   # tl default_questions,
          eo_messages = [QuestionBankSaved, QuestionUpdated]\<rparr>"
proof -
  have pc: "parse_choices (ed_choices_raw demo_edit) = [''Rome'', ''London'']"
    by code_simp
  have ans: "ed_answer demo_edit = ''Paris''"
    by (simp add: demo_edit_def)
  have rej: "ed_answer demo_edit \<notin> set (parse_choices (ed_choices_raw demo_edit))"
    unfolding pc ans by simp
  have ev: "edit_existing default_questions demo_edit =
     Inr \<lparr>eo_qs = default_questions, eo_file = default_questions,
          eo_messages = [AnswerMustMatch]\<rparr>"
    by code_simp
  have acc: "edit_existing default_questions (demo_edit\<lparr>ed_answer := ''Rome''\<rparr>) =
     Inr \<lparr>eo_qs = (default_questions ! 0)\<lparr>q_choices := [''Rome'', ''London''], q_answer := ''Rome''\<rparr>
                   # tl default_questions,
          eo_file = (default_questions ! 0)\<lparr>q_choices := [''Rome'', ''London''], q_answer := ''Rome''\<rparr>
                   # tl default_questions,
          eo_messages = [QuestionBankSaved, QuestionUpdated]\<rparr>"
    by code_simp
  from edit_rejected_unchanged [where inp = demo_edit and doc = default_questions] rej
  have fa: "file_after default_questions (edit_existing default_questions demo_edit)
      = default_questions"
    by blast
  from rej pc ev fa acc show ?thesis
    by (intro conjI)
qed




text \<open>
  C10. \<open>quiz_session_reset\<close> sets the index to 0, the score to 0 and the submissions to
  the empty list, and leaves \<open>last_pool\<close>, \<open>quiz_running\<close> and \<open>start_time\<close> as they
  were. A run of the script with the sidebar button Reset Quiz Session pressed does
  exactly that to the session state, on every page other than the quiz page, and also on
  the quiz page when a session is in progress for the selection shown and no button of
  the page is pressed: the selection identity is kept and the start time is not stamped
  again.
\<close>

theorem reset_frame:
  "current_q_index (quiz_session_reset s) = Some 0 \<and>
   score (quiz_session_reset s) = Some 0 \<and>
   answers (quiz_session_reset s) = Some [] \<and>
   last_pool (quiz_session_reset s) = last_pool s \<and>
   quiz_running (quiz_session_reset s) = quiz_running s \<and>
   start_time (quiz_session_reset s) = start_time s \<and>
   (ev_reset ev \<and> ev_page ev \<noteq> TakeQuiz \<longrightarrow> main_session ev s = quiz_session_reset s) \<and>
   (ev_reset ev \<and> ev_page ev = TakeQuiz \<and> ev_inputs ev = press NoButton inp \<and>
    in_progress (ev_questions ev) inp s i \<longrightarrow>
      main_session ev s = quiz_session_reset s)"
proof -
  have quiz: "main_session ev s = quiz_session_reset s"
    if ev: "ev_reset ev" "ev_page ev = TakeQuiz" "ev_inputs ev = press NoButton inp"
      and ip: "in_progress (ev_questions ev) inp s i"
  proof -
    from ip have "in_progress (ev_questions ev) inp (quiz_session_reset s) 0"
      by (auto simp: in_progress_def quiz_session_reset_def)
    from take_quiz_nobutton [OF this] ev show ?thesis
      by (simp add: main_session_def state_after_def)
  qed
  have other: "main_session ev s = quiz_session_reset s"
    if "ev_reset ev" "ev_page ev \<noteq> TakeQuiz"
    using that by (simp add: main_session_def)
  have fields: "current_q_index (quiz_session_reset s) = Some 0 \<and>
   score (quiz_session_reset s) = Some 0 \<and>
   answers (quiz_session_reset s) = Some [] \<and>
   last_pool (quiz_session_reset s) = last_pool s \<and>
   quiz_running (quiz_session_reset s) = quiz_running s \<and>
   start_time (quiz_session_reset s) = start_time s"
    by (simp add: quiz_session_reset_def)
  from fields other quiz show ?thesis by blast
qed

theorem reset_frame_witness:
  "ev_reset (click NoButton ''54'' \<lparr>ev_reset := True, ev_page := About\<rparr>) \<and>
   ev_page (click NoButton ''54'' \<lparr>ev_reset := True, ev_page := About\<rparr>) \<noteq> TakeQuiz \<and>
   main_session (click NoButton ''54'' \<lparr>ev_reset := True, ev_page := About\<rparr>) answered_session =
     answered_session\<lparr>current_q_index := Some 0, score := Some 0, answers := Some []\<rparr> \<and>
   in_progress (ev_questions (click NoButton ''54'' \<lparr>ev_reset := True\<rparr>)) (quiz_all ''54'')
     answered_session 1 \<and>
   main_session (click NoButton ''54'' \<lparr>ev_reset := True\<rparr>) answered_session =
     answered_session\<lparr>current_q_index := Some 0, score := Some 0, answers := Some []\<rparr> \<and>
   last_pool (quiz_session_reset answered_session) = Some [1, 2, 3] \<and>
   start_time (quiz_session_reset answered_session) = Some ''2024-01-01T10:00:00''"
proof -
  let ?e1 = "click NoButton ''54'' \<lparr>ev_reset := True, ev_page := About\<rparr>"
  let ?e2 = "click NoButton ''54'' \<lparr>ev_reset := True\<rparr>"
  have e1: "ev_reset ?e1" "ev_page ?e1 \<noteq> TakeQuiz"
    by (simp_all add: click_def)
  have e2: "ev_reset ?e2" "ev_page ?e2 = TakeQuiz" "ev_inputs ?e2 = press NoButton (quiz_all ''54'')"
    by (simp_all add: click_def)
  have ip: "in_progress (ev_questions ?e2) (quiz_all ''54'') answered_session 1"
    by (simp add: quiz_eval)
  have rs: "quiz_session_reset answered_session =
      answered_session\<lparr>current_q_index := Some 0, score := Some 0, answers := Some []\<rparr>"
    by (simp add: quiz_session_reset_def)
  have lp: "last_pool (quiz_session_reset answered_session) = Some [1, 2, 3]"
    "start_time (quiz_session_reset answered_session) = Some ''2024-01-01T10:00:00''"
    by (simp_all add: quiz_session_reset_def answered_session_def)
  from reset_frame [where ev = ?e1 and s = answered_session] e1
  have m1: "main_session ?e1 answered_session = quiz_session_reset answered_session"
    by blast
  from reset_frame [where ev = ?e2 and s = answered_session and inp = "quiz_all ''54''" and i = 1]
    e2 ip
  have m2: "main_session ?e2 answered_session = quiz_session_reset answered_session"
    by blast
  from e1 ip m1 [unfolded rs] m2 [unfolded rs] lp show ?thesis by (intro conjI)
qed

end
